theory Spec2Isabelle
  imports Complex_Main "HOL-Library.Sublist"
begin

section \<open>Python exceptions\<close>

text \<open>
  Every \<^verbatim>\<open>raise\<close> of the modelled functions is a value of this type; a function that can
  raise returns \<open>py_error + 'a\<close>, with \<open>Inl\<close> for the exception that leaves it.
\<close>

datatype py_error =
    ValueError
  | RuntimeError
  | AssertionError
  | ConnectionError
  | NotImplementedError
  | UnboundLocalError
  | TypeError
  | IndexError
  | OverflowError
  | MemoryError
  | OtherError

text \<open>
  The test \<^verbatim>\<open>s in t\<close> of Python on two strings: \<open>s\<close> occurs in \<open>t\<close> as a contiguous
  piece.
\<close>

fun py_in :: "string \<Rightarrow> string \<Rightarrow> bool" where
  "py_in s [] = (s = [])"
| "py_in s (c # cs) = (prefix s (c # cs) \<or> py_in s cs)"

section \<open>Conversion of BERT-SPC rows to BERT-BASE rows\<close>

text \<open>
  \<^verbatim>\<open>lcf_atepc_large.py\<close>, \<^verbatim>\<open>bert_base_atepc.py\<close> and \<^verbatim>\<open>lcf_template_atepc.py\<close> carry the same
  two methods:
  \<^verbatim>\<open>
    for text_i in range(len(text_ids)):
        sep_index = np.argmax((text_ids[text_i] == 102))
        text_ids[text_i][sep_index + 1:] = 0
  \<close>
  \<^verbatim>\<open>np.argmax\<close> gives the first index at which the maximum stands and raises
  \<^verbatim>\<open>ValueError\<close> on an empty sequence. The comparison yields booleans, ordered
  \<open>False < True\<close> as in HOL.
\<close>

definition np_argmax :: "'a::linorder list \<Rightarrow> py_error + nat" where
  "np_argmax xs =
     (if xs = [] then Inl ValueError
      else Inr (length (takeWhile (\<lambda>x. x \<noteq> Max (set xs)) xs)))"

text \<open>The slice assignment \<^verbatim>\<open>row[k:] = 0\<close>: the row keeps its length.\<close>

definition zero_from :: "nat \<Rightarrow> int list \<Rightarrow> int list" where
  "zero_from k row = take k row @ replicate (length row - k) 0"

text \<open>One turn of the loop, for the id \<open>sep\<close> that is looked for.\<close>

definition zero_after_first :: "int \<Rightarrow> int list \<Rightarrow> py_error + int list" where
  "zero_after_first sep row =
     (case np_argmax (map (\<lambda>x. x = sep) row) of
        Inl e \<Rightarrow> Inl e
      | Inr sep_index \<Rightarrow> Inr (zero_from (sep_index + 1) row))"

text \<open>The loop over the rows of the batch; the first exception ends it.\<close>

fun each_row :: "('a \<Rightarrow> py_error + 'b) \<Rightarrow> 'a list \<Rightarrow> py_error + 'b list" where
  "each_row f [] = Inr []"
| "each_row f (r # rs) =
     (case f r of
        Inl e \<Rightarrow> Inl e
      | Inr r' \<Rightarrow> (case each_row f rs of Inl e \<Rightarrow> Inl e | Inr rs' \<Rightarrow> Inr (r' # rs')))"

definition get_ids_for_local_context_extractor :: "int list list \<Rightarrow> py_error + int list list" where
  "get_ids_for_local_context_extractor text_indices = each_row (zero_after_first 102) text_indices"

text \<open>\<^verbatim>\<open>labels\<close> may be \<^verbatim>\<open>None\<close>, and then the method returns \<^verbatim>\<open>None\<close>.\<close>

definition get_batch_token_labels_bert_base_indices ::
    "int list list option \<Rightarrow> py_error + int list list option" where
  "get_batch_token_labels_bert_base_indices labels =
     (case labels of
        None \<Rightarrow> Inr None
      | Some ls \<Rightarrow>
          (case each_row (zero_after_first 5) ls of Inl e \<Rightarrow> Inl e | Inr ls' \<Rightarrow> Inr (Some ls')))"

section \<open>Polarity labels of a training set\<close>

text \<open>
  \<^verbatim>\<open>ABSADataset.__init__\<close> (\<^verbatim>\<open>apc/dataset_utils/data_utils_for_training.py\<close>) parses one
  integer label per example and adds it to \<^verbatim>\<open>polarities_set\<close>; after the loop it runs
  \<^verbatim>\<open>
    p_min, p_max = min(polarities_set), max(polarities_set)
    if p_min < 0:
        raise RuntimeError('Invalid sentiment label detected, ...')
    assert sorted(list(polarities_set)) == sorted(list(range(p_max - p_min + 1)))
    opt.polarities_dim = len(polarities_set)
  \<close>
  The argument of the model is the list of the parsed labels, in file order.
  \<^verbatim>\<open>min\<close> of an empty set raises \<^verbatim>\<open>ValueError\<close>.

  Python integers are unbounded, but \<^verbatim>\<open>list(range(n))\<close> builds a list of \<open>n\<close>
  elements: it raises \<^verbatim>\<open>OverflowError\<close> when \<open>n\<close> is above \<^verbatim>\<open>sys.maxsize\<close> (\<open>2^63 - 1\<close> on
  a 64-bit interpreter) and \<^verbatim>\<open>MemoryError\<close> when a list of that length cannot be
  allocated. \<open>list_capacity\<close> is the longest list the running process can allocate.
\<close>

definition py_range :: "int \<Rightarrow> int list" where
  "py_range n = [0..n - 1]"

definition py_list_range :: "int \<Rightarrow> int \<Rightarrow> py_error + int list" where
  "py_list_range list_capacity n =
     (if 2 ^ 63 - 1 < n then Inl OverflowError
      else if list_capacity < n then Inl MemoryError
      else Inr (py_range n))"

definition infer_polarities_dim :: "int \<Rightarrow> int list \<Rightarrow> py_error + nat" where
  "infer_polarities_dim list_capacity polarities =
     (let polarities_set = set polarities in
      if polarities_set = {} then Inl ValueError
      else
        let p_min = Min polarities_set; p_max = Max polarities_set in
        if p_min < 0 then Inl RuntimeError
        else
          (case py_list_range list_capacity (p_max - p_min + 1) of
             Inl e \<Rightarrow> Inl e
           | Inr r \<Rightarrow>
               if sorted_list_of_set polarities_set \<noteq> sort r then Inl AssertionError
               else Inr (card polarities_set)))"

section \<open>Construction of the Instructor and \<^verbatim>\<open>train4atepc\<close>\<close>

text \<open>
  \<^verbatim>\<open>atepc_trainer.py\<close>. Of the options object only the fields that the first lines of
  \<^verbatim>\<open>Instructor.__init__\<close> read and write are kept. The object is shared with the caller, so
  the constructor hands it back as it left it, also when it raises.
\<close>

record opt =
  gradient_accumulation_steps :: int
  batch_size :: int
  use_bert_spc :: bool

text \<open>
  Lines 39 to 49 of \<^verbatim>\<open>__init__\<close>: \<^verbatim>\<open>use_bert_spc\<close> is switched off, a value of
  \<^verbatim>\<open>gradient_accumulation_steps\<close> below 1 raises \<^verbatim>\<open>ValueError\<close>, and the batch size is
  divided (\<^verbatim>\<open>//\<close>). All that follows (fetching tokenizer and encoder, reading the
  datasets, building model and optimizer) is the parameter \<open>build\<close>, which gives the
  trainer or the exception it raised.
\<close>

definition Instructor_init ::
    "(opt \<Rightarrow> py_error + 't) \<Rightarrow> opt \<Rightarrow> opt \<times> (py_error + 't)" where
  "Instructor_init build opt =
     (let opt1 = (if use_bert_spc opt then opt\<lparr>use_bert_spc := False\<rparr> else opt) in
      if gradient_accumulation_steps opt1 < 1 then (opt1, Inl ValueError)
      else
        let opt2 = opt1\<lparr>batch_size := batch_size opt1 div gradient_accumulation_steps opt1\<rparr>
        in (opt2, build opt2))"

text \<open>
  \<^verbatim>\<open>
    def train4atepc(opt):
        # in case of handling ConnectionError exception
        trainer = None
        while not trainer:
            try:
                trainer = Instructor(opt)
            except ValueError as e:
                print('Seems to be ConnectionError, retry in {} seconds...'.format(60))
                time.sleep(60)
        return trainer.train()
  \<close>
  The loop may run forever, so the model takes fuel: the number of constructions it may
  try. \<open>Retrying\<close> says that the fuel is used up and the loop is still running. The first
  component of the result is the number of seconds slept. \<open>build attempt\<close> is what the
  rest of the constructor does at the given attempt (the network may differ from one
  attempt to the next); \<open>train\<close> is \<^verbatim>\<open>trainer.train()\<close>, which runs outside the
  \<^verbatim>\<open>try\<close>.
\<close>

datatype 'r outcome = Returned 'r | Raised py_error | Retrying

fun train4atepc ::
    "nat \<Rightarrow> (nat \<Rightarrow> opt \<Rightarrow> py_error + 't) \<Rightarrow> ('t \<Rightarrow> py_error + 'r) \<Rightarrow> nat \<Rightarrow> opt
      \<Rightarrow> nat \<times> 'r outcome" where
  "train4atepc 0 build train attempt opt = (0, Retrying)"
| "train4atepc (Suc fuel) build train attempt opt =
     (case Instructor_init (build attempt) opt of
        (opt', Inr trainer) \<Rightarrow>
          (0, case train trainer of Inl e \<Rightarrow> Raised e | Inr r \<Rightarrow> Returned r)
      | (opt', Inl e) \<Rightarrow>
          if e = ValueError
          then (case train4atepc fuel build train (Suc attempt) opt' of
                  (slept, r) \<Rightarrow> (60 + slept, r))
          else (0, Raised e))"

definition opt_zero_accumulation :: opt where
  "opt_zero_accumulation =
     \<lparr>gradient_accumulation_steps = 0, batch_size = 16, use_bert_spc = False\<rparr>"

section \<open>Samplers of the data loaders\<close>

text \<open>
  \<^verbatim>\<open>Instructor.__init__\<close> has \<^verbatim>\<open>train_sampler = SequentialSampler(train_data)\<close> (line 90)
  and \<^verbatim>\<open>eval_sampler = RandomSampler(eval_data)\<close> (line 110); \<^verbatim>\<open>AspectExtractor\<close> builds
  its loaders with \<^verbatim>\<open>SequentialSampler\<close>. A sequential sampler yields \<open>0, ..., n - 1\<close>; a
  random sampler yields the permutation that the random number generator draws when
  the pass over the loader starts, here the parameter \<open>randperm\<close>.
\<close>

datatype sampler = SequentialSampler | RandomSampler

definition sampler_indices :: "sampler \<Rightarrow> nat list \<Rightarrow> nat \<Rightarrow> nat list" where
  "sampler_indices s randperm n =
     (case s of SequentialSampler \<Rightarrow> [0..<n] | RandomSampler \<Rightarrow> randperm)"

record data_loaders =
  train_sampler :: sampler
  eval_sampler :: sampler

definition Instructor_loaders :: data_loaders where
  "Instructor_loaders = \<lparr>train_sampler = SequentialSampler, eval_sampler = RandomSampler\<rparr>"

definition AspectExtractor_sampler :: sampler where
  "AspectExtractor_sampler = SequentialSampler"

text \<open>The order in which one pass of \<^verbatim>\<open>evaluate\<close> meets the held-out examples.\<close>

definition evaluate_order :: "nat list \<Rightarrow> 'e list \<Rightarrow> 'e list" where
  "evaluate_order randperm eval_data =
     map (\<lambda>i. eval_data ! i)
       (sampler_indices (eval_sampler Instructor_loaders) randperm (length eval_data))"

section \<open>Parameter groups of the optimizer\<close>

text \<open>
  \<^verbatim>\<open>
    no_decay = ['bias', 'LayerNorm.bias', 'LayerNorm.weight']
    self.optimizer_grouped_parameters = [
        {'params': [p for n, p in param_optimizer if not any(nd in n for nd in no_decay)],
         'weight_decay': self.opt.l2reg},
        {'params': [p for n, p in param_optimizer if any(nd in n for nd in no_decay)],
         'weight_decay': self.opt.l2reg}
    ]
  \<close>
\<close>

definition no_decay :: "string list" where
  "no_decay = [''bias'', ''LayerNorm.bias'', ''LayerNorm.weight'']"

record 'p param_group =
  params :: "'p list"
  weight_decay :: real

definition optimizer_grouped_parameters ::
    "real \<Rightarrow> (string \<times> 'p) list \<Rightarrow> 'p param_group list" where
  "optimizer_grouped_parameters l2reg param_optimizer =
     [\<lparr>params = map snd (filter (\<lambda>(n, p). \<not> list_ex (\<lambda>nd. py_in nd n) no_decay) param_optimizer),
        weight_decay = l2reg\<rparr>,
      \<lparr>params = map snd (filter (\<lambda>(n, p). list_ex (\<lambda>nd. py_in nd n) no_decay) param_optimizer),
        weight_decay = l2reg\<rparr>]"

section \<open>Counters of the training loop\<close>

text \<open>
  The body of the batch loop of \<^verbatim>\<open>Instructor.train\<close> (lines 153 to 175), reduced to what
  it counts: one call of the model, \<^verbatim>\<open>nb_tr_steps += 1\<close>, one
  \<^verbatim>\<open>optimizer.step()\<close> with \<^verbatim>\<open>zero_grad()\<close>, and then the two lines
  \<^verbatim>\<open>global_step += 1\<close>, \<^verbatim>\<open>global_step += 1\<close>.
\<close>

record counters =
  global_step :: nat
  nb_tr_steps :: nat
  forward_passes :: nat
  optimizer_steps :: nat

definition train_batch :: "counters \<Rightarrow> counters" where
  "train_batch c =
     (let c1 = c\<lparr>forward_passes := forward_passes c + 1\<rparr>;
          c2 = c1\<lparr>nb_tr_steps := nb_tr_steps c1 + 1\<rparr>;
          c3 = c2\<lparr>optimizer_steps := optimizer_steps c2 + 1\<rparr>;
          c4 = c3\<lparr>global_step := global_step c3 + 1\<rparr>
      in c4\<lparr>global_step := global_step c4 + 1\<rparr>)"

text \<open>An epoch resets \<^verbatim>\<open>nb_tr_steps\<close> and runs the body once per batch of the loader.\<close>

definition train_epoch :: "'b list \<Rightarrow> counters \<Rightarrow> counters" where
  "train_epoch batches c = foldl (\<lambda>c batch. train_batch c) (c\<lparr>nb_tr_steps := 0\<rparr>) batches"

definition train_counters :: "nat \<Rightarrow> 'b list \<Rightarrow> counters" where
  "train_counters num_epoch batches =
     foldl (\<lambda>c epoch. train_epoch batches c)
       \<lparr>global_step = 0, nb_tr_steps = 0, forward_passes = 0, optimizer_steps = 0\<rparr>
       [0..<num_epoch]"

section \<open>Best metrics and checkpoints\<close>

text \<open>
  What \<^verbatim>\<open>Instructor.train\<close> does with the result of one evaluation (lines 192 to 211).
  The metrics are Python floats that are only compared and copied, modelled as reals.
  \<^verbatim>\<open>saved\<close> lists the evaluations at which \<^verbatim>\<open>_save_model\<close> was called, oldest first.
\<close>

record max_test_metrics =
  max_apc_test_acc :: real
  max_apc_test_f1 :: real
  max_ate_test_f1 :: real

record evaluation =
  apc_test_acc :: real
  apc_test_f1 :: real
  ate_result :: real

record checkpoint_state =
  max_metrics :: max_test_metrics
  saved :: "evaluation list"

text \<open>\<^verbatim>\<open>if self.opt.model_path_to_save:\<close> holds for a string that is not empty.\<close>

definition truthy :: "string option \<Rightarrow> bool" where
  "truthy s = (case s of None \<Rightarrow> False | Some p \<Rightarrow> p \<noteq> [])"

definition improved :: "max_test_metrics \<Rightarrow> evaluation \<Rightarrow> bool" where
  "improved m ev =
     (apc_test_acc ev > max_apc_test_acc m \<or> apc_test_f1 ev > max_apc_test_f1 m
      \<or> ate_result ev > max_ate_test_f1 m)"

definition update_max :: "max_test_metrics \<Rightarrow> evaluation \<Rightarrow> max_test_metrics" where
  "update_max m ev =
     (let m1 = (if apc_test_acc ev > max_apc_test_acc m
                then m\<lparr>max_apc_test_acc := apc_test_acc ev\<rparr> else m);
          m2 = (if apc_test_f1 ev > max_apc_test_f1 m1
                then m1\<lparr>max_apc_test_f1 := apc_test_f1 ev\<rparr> else m1)
      in (if ate_result ev > max_ate_test_f1 m2
          then m2\<lparr>max_ate_test_f1 := ate_result ev\<rparr> else m2))"

definition after_evaluation ::
    "string option \<Rightarrow> checkpoint_state \<Rightarrow> evaluation \<Rightarrow> checkpoint_state" where
  "after_evaluation model_path_to_save st ev =
     (let st1 = (if truthy model_path_to_save
                 then (if improved (max_metrics st) ev
                       then st\<lparr>saved := saved st @ [ev]\<rparr> else st)
                 else st)
      in st1\<lparr>max_metrics := update_max (max_metrics st1) ev\<rparr>)"

text \<open>Line 145: \<^verbatim>\<open>train\<close> starts from maxima 0; nothing is saved yet.\<close>

definition train_start :: checkpoint_state where
  "train_start =
     \<lparr>max_metrics = \<lparr>max_apc_test_acc = 0, max_apc_test_f1 = 0, max_ate_test_f1 = 0\<rparr>,
      saved = []\<rparr>"

text \<open>The state after the evaluations of one run, in the order in which they happen.\<close>

definition after_evaluations :: "string option \<Rightarrow> evaluation list \<Rightarrow> checkpoint_state" where
  "after_evaluations model_path_to_save evs =
     foldl (after_evaluation model_path_to_save) train_start evs"

definition metrics_le :: "max_test_metrics \<Rightarrow> max_test_metrics \<Rightarrow> bool" where
  "metrics_le m m' =
     (max_apc_test_acc m \<le> max_apc_test_acc m' \<and> max_apc_test_f1 m \<le> max_apc_test_f1 m'
      \<and> max_ate_test_f1 m \<le> max_ate_test_f1 m')"

text \<open>Three evaluation results, for a run that can be computed.\<close>

definition evaluation_a :: evaluation where
  "evaluation_a = \<lparr>apc_test_acc = 80, apc_test_f1 = 70, ate_result = 60\<rparr>"

definition evaluation_b :: evaluation where
  "evaluation_b = \<lparr>apc_test_acc = 75, apc_test_f1 = 72, ate_result = 60\<rparr>"

definition evaluation_c :: evaluation where
  "evaluation_c = \<lparr>apc_test_acc = 78, apc_test_f1 = 71, ate_result = 55\<rparr>"

section \<open>Batch inference\<close>

text \<open>
  \<^verbatim>\<open>AspectExtractor.extract_aspect\<close> (\<^verbatim>\<open>aspect_extractor.py\<close>, lines 132 to 150). Its
  argument is a string (for which \<open>is_path\<close> says whether it names a file or directory),
  a list of strings, or something else. \<^verbatim>\<open>_extract\<close> and \<^verbatim>\<open>_infer\<close> are parameters: each
  gives its result or the exception it raised. The method has no \<^verbatim>\<open>try\<close>. Beside the
  returned value the model gives the examples that \<^verbatim>\<open>_extract\<close> was called on.
\<close>

record ('x, 'p) inference_result =
  extraction_res :: 'x
  polarity_res :: "'p option"

datatype 'e examples = Str 'e bool | Examples "'e list" | Neither

datatype 'r returned = Single 'r | Many "'r list" | PyNone

text \<open>The loop \<^verbatim>\<open>for example in examples\<close>, with \<^verbatim>\<open>results\<close> as it grows.\<close>

fun extract_aspect_loop ::
    "('e \<Rightarrow> py_error + 'x) \<Rightarrow> ('x \<Rightarrow> py_error + 'p) \<Rightarrow> bool \<Rightarrow> 'e list
      \<Rightarrow> 'e list \<Rightarrow> ('x, 'p) inference_result list
      \<Rightarrow> 'e list \<times> (py_error + ('x, 'p) inference_result list)" where
  "extract_aspect_loop extract_fn infer_fn pred_sentiment [] seen results = (seen, Inr results)"
| "extract_aspect_loop extract_fn infer_fn pred_sentiment (example # rest) seen results =
     (case extract_fn example of
        Inl e \<Rightarrow> (seen @ [example], Inl e)
      | Inr x \<Rightarrow>
          if pred_sentiment
          then (case infer_fn x of
                  Inl e \<Rightarrow> (seen @ [example], Inl e)
                | Inr p \<Rightarrow>
                    extract_aspect_loop extract_fn infer_fn pred_sentiment rest (seen @ [example])
                      (results @ [\<lparr>extraction_res = x, polarity_res = Some p\<rparr>]))
          else extract_aspect_loop extract_fn infer_fn pred_sentiment rest (seen @ [example])
                 (results @ [\<lparr>extraction_res = x, polarity_res = None\<rparr>]))"

definition extract_aspect ::
    "('e \<Rightarrow> py_error + 'x) \<Rightarrow> ('x \<Rightarrow> py_error + 'p) \<Rightarrow> bool \<Rightarrow> 'e examples
      \<Rightarrow> 'e list \<times> (py_error + ('x, 'p) inference_result returned)" where
  "extract_aspect extract_fn infer_fn pred_sentiment examples =
     (case examples of
        Str example is_path \<Rightarrow>
          if is_path then ([], Inl NotImplementedError)
          else (case extract_aspect_loop extract_fn infer_fn pred_sentiment [example] [] [] of
                  (seen, Inl e) \<Rightarrow> (seen, Inl e)
                | (seen, Inr rs) \<Rightarrow> (seen, Inr (Single (hd rs))))
      | Examples exs \<Rightarrow>
          (case extract_aspect_loop extract_fn infer_fn pred_sentiment exs [] [] of
             (seen, Inl e) \<Rightarrow> (seen, Inl e)
           | (seen, Inr rs) \<Rightarrow> (seen, Inr (Many rs)))
      | Neither \<Rightarrow> ([], Inr PyNone))"

text \<open>What the two calls give for one example: the dictionary that is appended, or the
  exception.\<close>

definition one_example ::
    "('e \<Rightarrow> py_error + 'x) \<Rightarrow> ('x \<Rightarrow> py_error + 'p) \<Rightarrow> bool \<Rightarrow> 'e
      \<Rightarrow> py_error + ('x, 'p) inference_result" where
  "one_example extract_fn infer_fn pred_sentiment example =
     (case extract_fn example of
        Inl e \<Rightarrow> Inl e
      | Inr x \<Rightarrow>
          if pred_sentiment
          then (case infer_fn x of
                  Inl e \<Rightarrow> Inl e
                | Inr p \<Rightarrow> Inr \<lparr>extraction_res = x, polarity_res = Some p\<rparr>)
          else Inr \<lparr>extraction_res = x, polarity_res = None\<rparr>)"



section \<open>Fusion of global and local context\<close>

text \<open>
  \<^verbatim>\<open>LCF_ATEPC_LARGE.forward\<close> (\<^verbatim>\<open>lcf_atepc_large.py\<close>, lines 97 to 115), as the expression
  it builds. The leaves are the values that the branches start from:
  \<^verbatim>\<open>global_context_out\<close>, \<^verbatim>\<open>local_context_out\<close> (both after compression by
  \<^verbatim>\<open>valid_ids\<close> and dropout) and the two fusion vectors; every layer and every tensor
  operation is a constructor.
  \<^verbatim>\<open>
    if 'cdm' in self.opt.lcf:
        cdm_context_out = torch.mul(local_context_out, lcf_cdm_vec)
        cdm_context_out = self.SA1(cdm_context_out)
        cat_out = torch.cat((global_context_out, cdm_context_out), dim=-1)
        cat_out = self.linear_double(cat_out)
    elif 'cdw' in self.opt.lcf:
        cdw_context_out = torch.mul(local_context_out, lcf_cdw_vec)
        cdw_context_out = self.SA1(cdw_context_out)
        cat_out = torch.cat((global_context_out, cdw_context_out), dim=-1)
        cat_out = self.linear_double(cat_out)
    elif 'fusion' in self.opt.lcf:
        cdm_context_out = torch.mul(local_context_out, lcf_cdm_vec)
        cdw_context_out = torch.mul(local_context_out, lcf_cdw_vec)
        cat_out = torch.cat((global_context_out, cdw_context_out, cdm_context_out), dim=-1)
        cat_out = self.linear_triple(cat_out)
    sa_out = self.SA2(cat_out)
    pooled_out = self.pooler(sa_out)
    pooled_out = self.dropout(pooled_out)
    apc_logits = self.dense(pooled_out)
  \<close>
  When no branch is taken, \<^verbatim>\<open>cat_out\<close> is not bound and reading it raises.
\<close>

datatype tensor =
    Global_context_out
  | Local_context_out
  | Lcf_cdm_vec
  | Lcf_cdw_vec
  | Mul tensor tensor
  | SA1 tensor
  | SA2 tensor
  | Cat2 int tensor tensor
  | Cat3 int tensor tensor tensor
  | Linear_double tensor
  | Linear_triple tensor
  | Pooler tensor
  | Dropout tensor
  | Dense tensor

text \<open>
  \<^verbatim>\<open>torch.cat((...), dim=-1)\<close> is \<open>Cat2 (- 1)\<close> or \<open>Cat3 (- 1)\<close>: the first argument is the
  axis.
\<close>

definition cat_out :: "string \<Rightarrow> bool \<Rightarrow> bool \<Rightarrow> py_error + tensor" where
  "cat_out lcf cdm_given cdw_given =
     (if py_in ''cdm'' lcf then
        (if cdm_given
         then Inr (Linear_double
                (Cat2 (- 1) Global_context_out (SA1 (Mul Local_context_out Lcf_cdm_vec))))
         else Inl TypeError)
      else if py_in ''cdw'' lcf then
        (if cdw_given
         then Inr (Linear_double
                (Cat2 (- 1) Global_context_out (SA1 (Mul Local_context_out Lcf_cdw_vec))))
         else Inl TypeError)
      else if py_in ''fusion'' lcf then
        (if cdm_given \<and> cdw_given
         then Inr (Linear_triple
                (Cat3 (- 1) Global_context_out (Mul Local_context_out Lcf_cdw_vec)
                   (Mul Local_context_out Lcf_cdm_vec)))
         else Inl TypeError)
      else Inl UnboundLocalError)"

text \<open>
  \<open>cdm_given\<close>, \<open>cdw_given\<close>: the fusion vector passed to \<^verbatim>\<open>forward\<close> is not \<^verbatim>\<open>None\<close>.
  \<^verbatim>\<open>torch.mul\<close> with \<^verbatim>\<open>None\<close> raises \<^verbatim>\<open>TypeError\<close>.
\<close>

definition apc_logits :: "string \<Rightarrow> bool \<Rightarrow> bool \<Rightarrow> py_error + tensor option" where
  "apc_logits lcf cdm_given cdw_given =
     (if cdm_given \<or> cdw_given then
        (case cat_out lcf cdm_given cdw_given of
           Inl e \<Rightarrow> Inl e
         | Inr c \<Rightarrow> Inr (Some (Dense (Dropout (Pooler (SA2 c))))))
      else Inr None)"

text \<open>
  The property that C9 asks of such an expression: every product with a fusion vector
  stands directly under \<open>SA1\<close>.
\<close>

fun weighted_through_SA1 :: "tensor \<Rightarrow> bool" where
  "weighted_through_SA1 (SA1 (Mul a b)) = (weighted_through_SA1 a \<and> weighted_through_SA1 b)"
| "weighted_through_SA1 (Mul a b) = False"
| "weighted_through_SA1 (SA1 t) = weighted_through_SA1 t"
| "weighted_through_SA1 (SA2 t) = weighted_through_SA1 t"
| "weighted_through_SA1 (Cat2 axis a b) = (weighted_through_SA1 a \<and> weighted_through_SA1 b)"
| "weighted_through_SA1 (Cat3 axis a b c) =
     (weighted_through_SA1 a \<and> weighted_through_SA1 b \<and> weighted_through_SA1 c)"
| "weighted_through_SA1 (Linear_double t) = weighted_through_SA1 t"
| "weighted_through_SA1 (Linear_triple t) = weighted_through_SA1 t"
| "weighted_through_SA1 (Pooler t) = weighted_through_SA1 t"
| "weighted_through_SA1 (Dropout t) = weighted_through_SA1 t"
| "weighted_through_SA1 (Dense t) = weighted_through_SA1 t"
| "weighted_through_SA1 t = True"

subsection \<open>Shapes\<close>

text \<open>
  The shape of the tensor that an expression stands for, or the exception that the
  operation raises on operands that do not fit. The encoder outputs have shape
  \<open>[batch, max_len, hidden_dim]\<close>; the shapes of the two fusion vectors come with the
  features, which are built outside the sources, and are parameters. From
  \<^verbatim>\<open>__init__\<close>: \<^verbatim>\<open>linear_double = nn.Linear(opt.hidden_dim * 2, opt.hidden_dim)\<close>,
  \<^verbatim>\<open>linear_triple = nn.Linear(opt.hidden_dim * 3, opt.hidden_dim)\<close> and
  \<^verbatim>\<open>dense = torch.nn.Linear(opt.hidden_dim, opt.polarities_dim)\<close>.
\<close>

record dims =
  batch :: nat
  max_len :: nat
  hidden_dim :: nat
  polarities_dim :: nat
  cdm_shape :: "nat list"
  cdw_shape :: "nat list"

text \<open>
  \<^verbatim>\<open>torch.mul\<close> broadcasts: the shapes are aligned at the last axis, and two sizes fit
  when they are equal or one of them is 1.
\<close>

fun broadcast_rev :: "nat list \<Rightarrow> nat list \<Rightarrow> nat list option" where
  "broadcast_rev [] ys = Some ys"
| "broadcast_rev xs [] = Some xs"
| "broadcast_rev (x # xs) (y # ys) =
     (if x = y \<or> y = 1 then map_option ((#) x) (broadcast_rev xs ys)
      else if x = 1 then map_option ((#) y) (broadcast_rev xs ys)
      else None)"

definition broadcast :: "nat list \<Rightarrow> nat list \<Rightarrow> py_error + nat list" where
  "broadcast a b =
     (case broadcast_rev (rev a) (rev b) of None \<Rightarrow> Inl RuntimeError | Some s \<Rightarrow> Inr (rev s))"

text \<open>
  \<^verbatim>\<open>torch.cat\<close> along \<open>axis\<close> (a negative axis counts from the last): the operands agree
  on every other axis, and the sizes along \<open>axis\<close> add up.
\<close>

definition cat_shapes :: "int \<Rightarrow> nat list \<Rightarrow> nat list list \<Rightarrow> py_error + nat list" where
  "cat_shapes axis s ss =
     (let r = int (length s); d = (if axis < 0 then axis + r else axis) in
      if d < 0 \<or> r \<le> d then Inl IndexError
      else if list_all (\<lambda>s'. length s' = length s \<and> s'[nat d := 0] = s[nat d := 0]) ss
        then Inr (s[nat d := sum_list (map (\<lambda>x. x ! nat d) (s # ss))])
      else Inl RuntimeError)"

text \<open>\<^verbatim>\<open>nn.Linear(in_features, out_features)\<close> maps the last axis.\<close>

definition linear_shape :: "nat \<Rightarrow> nat \<Rightarrow> nat list \<Rightarrow> py_error + nat list" where
  "linear_shape in_features out_features s =
     (if s \<noteq> [] \<and> last s = in_features then Inr (butlast s @ [out_features])
      else Inl RuntimeError)"

text \<open>
  Modelled from the spec: the class \<^verbatim>\<open>Encoder\<close> of \<^verbatim>\<open>pyabsa.network.sa_encoder\<close> (the blocks
  \<open>SA1\<close> and \<open>SA2\<close>) is not in the sources. Section 4.2 calls it a self-attention
  refinement block, standard multi-head self-attention with residual and norm: it takes
  \<open>[batch, max_len, hidden_dim]\<close> and gives the same shape.
\<close>

definition encoder_shape :: "nat \<Rightarrow> nat list \<Rightarrow> py_error + nat list" where
  "encoder_shape hidden s =
     (if length s = 3 \<and> last s = hidden then Inr s else Inl RuntimeError)"

text \<open>
  \<^verbatim>\<open>BertPooler\<close> takes the vector at position 0 of every sequence and maps it by a
  linear layer of width \<open>hidden_dim\<close>.
\<close>

definition pooler_shape :: "nat \<Rightarrow> nat list \<Rightarrow> py_error + nat list" where
  "pooler_shape hidden s =
     (case s of
        [b, l, h] \<Rightarrow> if h = hidden then (if 0 < l then Inr [b, h] else Inl IndexError)
                     else Inl RuntimeError
      | _ \<Rightarrow> Inl RuntimeError)"

fun shape_of :: "dims \<Rightarrow> tensor \<Rightarrow> py_error + nat list" where
  "shape_of d Global_context_out = Inr [batch d, max_len d, hidden_dim d]"
| "shape_of d Local_context_out = Inr [batch d, max_len d, hidden_dim d]"
| "shape_of d Lcf_cdm_vec = Inr (cdm_shape d)"
| "shape_of d Lcf_cdw_vec = Inr (cdw_shape d)"
| "shape_of d (Mul a b) =
     (case shape_of d a of Inl e \<Rightarrow> Inl e
      | Inr sa \<Rightarrow> (case shape_of d b of Inl e \<Rightarrow> Inl e | Inr sb \<Rightarrow> broadcast sa sb))"
| "shape_of d (SA1 t) =
     (case shape_of d t of Inl e \<Rightarrow> Inl e | Inr s \<Rightarrow> encoder_shape (hidden_dim d) s)"
| "shape_of d (SA2 t) =
     (case shape_of d t of Inl e \<Rightarrow> Inl e | Inr s \<Rightarrow> encoder_shape (hidden_dim d) s)"
| "shape_of d (Cat2 axis a b) =
     (case shape_of d a of Inl e \<Rightarrow> Inl e
      | Inr sa \<Rightarrow> (case shape_of d b of Inl e \<Rightarrow> Inl e | Inr sb \<Rightarrow> cat_shapes axis sa [sb]))"
| "shape_of d (Cat3 axis a b c) =
     (case shape_of d a of Inl e \<Rightarrow> Inl e
      | Inr sa \<Rightarrow>
          (case shape_of d b of Inl e \<Rightarrow> Inl e
           | Inr sb \<Rightarrow>
               (case shape_of d c of Inl e \<Rightarrow> Inl e | Inr sc \<Rightarrow> cat_shapes axis sa [sb, sc])))"
| "shape_of d (Linear_double t) =
     (case shape_of d t of Inl e \<Rightarrow> Inl e
      | Inr s \<Rightarrow> linear_shape (hidden_dim d * 2) (hidden_dim d) s)"
| "shape_of d (Linear_triple t) =
     (case shape_of d t of Inl e \<Rightarrow> Inl e
      | Inr s \<Rightarrow> linear_shape (hidden_dim d * 3) (hidden_dim d) s)"
| "shape_of d (Pooler t) =
     (case shape_of d t of Inl e \<Rightarrow> Inl e | Inr s \<Rightarrow> pooler_shape (hidden_dim d) s)"
| "shape_of d (Dropout t) = shape_of d t"
| "shape_of d (Dense t) =
     (case shape_of d t of Inl e \<Rightarrow> Inl e
      | Inr s \<Rightarrow> linear_shape (hidden_dim d) (polarities_dim d) s)"

text \<open>The sizes of the example configuration with a BERT-base encoder.\<close>

definition dims_demo :: dims where
  "dims_demo = \<lparr>batch = 16, max_len = 80, hidden_dim = 768, polarities_dim = 3,
                 cdm_shape = [16, 80, 768], cdw_shape = [16, 80, 768]\<rparr>"

section \<open>Aspect spans of a predicted tag sequence\<close>

text \<open>
  \<^verbatim>\<open>AspectExtractor._extract\<close> (\<^verbatim>\<open>aspect_extractor.py\<close>, lines 203 to 241). Tags are the
  strings of the label list; \<^verbatim>\<open>'ASP' in l\<close> is the substring test. The padding
  sentinel \<^verbatim>\<open>SENTIMENT_PADDING\<close> is imported from a module outside the sources and is a
  parameter here.

  The predicted tags are read off the arg-max row \<^verbatim>\<open>ate_logits[0]\<close>, which is as long as
  \<^verbatim>\<open>label_ids[0]\<close>: position 0 is skipped, and the loop stops when there are as many tags
  as tokens. \<^verbatim>\<open>label_map\<close> numbers the label list from 1, and a missing key gives
  \<^verbatim>\<open>'O'\<close>.
\<close>

definition label_map :: "string list \<Rightarrow> int \<Rightarrow> string option" where
  "label_map label_list i =
     (if 1 \<le> i \<and> i \<le> int (length label_list) then Some (label_list ! nat (i - 1)) else None)"

fun decode_loop :: "(int \<Rightarrow> string option) \<Rightarrow> nat \<Rightarrow> int list \<Rightarrow> string list \<Rightarrow> string list" where
  "decode_loop lm n [] pred_iobs = pred_iobs"
| "decode_loop lm n (a # rest) pred_iobs =
     (if length pred_iobs = n then pred_iobs
      else decode_loop lm n rest
             (pred_iobs @ [case lm a of None \<Rightarrow> ''O'' | Some l \<Rightarrow> l]))"

definition decode_iobs :: "string list \<Rightarrow> 't list \<Rightarrow> int list \<Rightarrow> string list" where
  "decode_iobs label_list tokens ate_row =
     decode_loop (label_map label_list) (length tokens) (drop 1 ate_row) []"

text \<open>
  The test of the inner \<^verbatim>\<open>for iob_idx in range(len(_pred_iobs) - 1)\<close>, the first index
  that passes it, and the \<^verbatim>\<open>while asp_idx < asp_num\<close> loop, which runs \<^verbatim>\<open>asp_num\<close> times
  and appends one tuple per turn:
  \<^verbatim>\<open>
    if 'B-ASP' == pred_iobs[iob_idx] and 'ASP' not in pred_iobs[iob_idx + 1] \
            or 'I-ASP' == pred_iobs[iob_idx] and 'ASP' not in pred_iobs[iob_idx + 1]:
        _pred_iobs = _pred_iobs[:iob_idx + 1] + IOB_PADDING[iob_idx + 1:]
        pred_iobs = IOB_PADDING[:iob_idx + 1] + pred_iobs[iob_idx + 1:]
        _polarity = _polarity[:iob_idx + 1] + POLARITY_PADDING[iob_idx + 1:]
        polarity = POLARITY_PADDING[:iob_idx + 1] + polarity[iob_idx + 1:]
        break
  \<close>
\<close>

definition has_ASP :: "string \<Rightarrow> bool" where
  "has_ASP l = py_in ''ASP'' l"

definition closes_span :: "string list \<Rightarrow> nat \<Rightarrow> bool" where
  "closes_span pred_iobs iob_idx =
     ((''B-ASP'' = pred_iobs ! iob_idx \<and> \<not> has_ASP (pred_iobs ! (iob_idx + 1)))
      \<or> (''I-ASP'' = pred_iobs ! iob_idx \<and> \<not> has_ASP (pred_iobs ! (iob_idx + 1))))"

definition first_boundary :: "string list \<Rightarrow> nat option" where
  "first_boundary pred_iobs = List.find (closes_span pred_iobs) [0..<length pred_iobs - 1]"

fun extract_loop ::
    "nat \<Rightarrow> 't list \<Rightarrow> string list \<Rightarrow> int list \<Rightarrow> string list \<Rightarrow> int list
      \<Rightarrow> ('t list \<times> string list \<times> int list) list" where
  "extract_loop 0 tokens IOB_PADDING POLARITY_PADDING pred_iobs polarity = []"
| "extract_loop (Suc n) tokens IOB_PADDING POLARITY_PADDING pred_iobs polarity =
     (case first_boundary pred_iobs of
        None \<Rightarrow>
          (tokens, pred_iobs, polarity)
            # extract_loop n tokens IOB_PADDING POLARITY_PADDING pred_iobs polarity
      | Some iob_idx \<Rightarrow>
          (tokens,
           take (iob_idx + 1) pred_iobs @ drop (iob_idx + 1) IOB_PADDING,
           take (iob_idx + 1) polarity @ drop (iob_idx + 1) POLARITY_PADDING)
            # extract_loop n tokens IOB_PADDING POLARITY_PADDING
                (take (iob_idx + 1) IOB_PADDING @ drop (iob_idx + 1) pred_iobs)
                (take (iob_idx + 1) POLARITY_PADDING @ drop (iob_idx + 1) polarity))"

definition aspect_tuples ::
    "int \<Rightarrow> 't list \<Rightarrow> string list \<Rightarrow> ('t list \<times> string list \<times> int list) list" where
  "aspect_tuples SENTIMENT_PADDING tokens pred_iobs =
     (let polarity = map (\<lambda>(t, l). if has_ASP l then - SENTIMENT_PADDING else SENTIMENT_PADDING)
                       (zip tokens pred_iobs);
          asp_num = count_list pred_iobs ''B-ASP'';
          IOB_PADDING = replicate (length pred_iobs) ''O'';
          POLARITY_PADDING = replicate (length pred_iobs) SENTIMENT_PADDING
      in extract_loop asp_num tokens IOB_PADDING POLARITY_PADDING pred_iobs polarity)"

definition extract_result ::
    "int \<Rightarrow> string list \<Rightarrow> 't list \<Rightarrow> int list \<Rightarrow> ('t list \<times> string list \<times> int list) list" where
  "extract_result SENTIMENT_PADDING label_list tokens ate_row =
     aspect_tuples SENTIMENT_PADDING tokens (decode_iobs label_list tokens ate_row)"

section \<open>Rows without the looked-for id\<close>

lemma np_argmax_all_False:
  assumes "bs \<noteq> []" and "True \<notin> set bs"
  shows "np_argmax bs = Inr 0"
proof -
  from assms obtain b bs' where bs: "bs = b # bs'"
    by (cases bs) auto
  have allF: "\<And>x. x \<in> set bs \<Longrightarrow> x = False"
    using assms(2) by (metis (full_types))
  have "Max (set bs) \<in> set bs"
    using assms(1) by (intro Max_in) auto
  then have "Max (set bs) = False"
    using allF by blast
  moreover have "b = False"
    using allF [of b] bs by simp
  ultimately show ?thesis
    using bs by (simp add: np_argmax_def)
qed

lemma zero_after_first_absent:
  assumes "row \<noteq> []" and "sep \<notin> set row"
  shows "zero_after_first sep row = Inr (hd row # replicate (length row - 1) 0)"
proof -
  have "True \<notin> set (map (\<lambda>x. x = sep) row)"
    using assms(2) by auto
  then have "np_argmax (map (\<lambda>x. x = sep) row) = Inr 0"
    using assms(1) by (intro np_argmax_all_False) auto
  moreover have "zero_from (Suc 0) row = hd row # replicate (length row - 1) 0"
    using assms(1) by (cases row) (auto simp: zero_from_def)
  ultimately show ?thesis
    by (simp add: zero_after_first_def)
qed

lemma zero_after_first_returns:
  "row \<noteq> [] \<Longrightarrow> \<exists>out. zero_after_first sep row = Inr out \<and> length out = length row"
  by (auto simp: zero_after_first_def np_argmax_def zero_from_def)

lemma each_row_returns:
  assumes "\<And>r. r \<in> set rs \<Longrightarrow> \<exists>out. f r = Inr out"
  shows "\<exists>outs. each_row f rs = Inr outs \<and> length outs = length rs
           \<and> (\<forall>i<length rs. f (rs ! i) = Inr (outs ! i))"
  using assms
proof (induction rs)
  case Nil
  then show ?case by simp
next
  case (Cons r rs)
  from Cons.prems obtain out where out: "f r = Inr out"
    by (meson list.set_intros(1))
  from Cons obtain outs where outs: "each_row f rs = Inr outs" "length outs = length rs"
      "\<forall>i<length rs. f (rs ! i) = Inr (outs ! i)"
    by (meson list.set_intros(2))
  have "\<forall>i<length (r # rs). f ((r # rs) ! i) = Inr ((out # outs) ! i)"
    using out outs(3) by (auto simp: nth_Cons split: nat.splits)
  then show ?case
    using out outs(1,2) by simp
qed

text \<open>
  C10. A row of the batch that holds no separator id 102 comes back from
  \<open>get_ids_for_local_context_extractor\<close> with every position after index 0 set to 0, so
  only its first id is left; \<open>get_batch_token_labels_bert_base_indices\<close> does the same to
  a label row that holds no tag id 5. The rows are those of a two-dimensional array of
  width at least one (on rows of width zero \<^verbatim>\<open>np.argmax\<close> raises).
\<close>

theorem no_separator_row_is_erased:
  assumes "i < length rows" and "\<forall>r\<in>set rows. r \<noteq> []"
  shows "(102 \<notin> set (rows ! i) \<longrightarrow>
            (\<exists>out. get_ids_for_local_context_extractor rows = Inr out
               \<and> length out = length rows
               \<and> out ! i = hd (rows ! i) # replicate (length (rows ! i) - 1) 0))
       \<and> (5 \<notin> set (rows ! i) \<longrightarrow>
            (\<exists>out. get_batch_token_labels_bert_base_indices (Some rows) = Inr (Some out)
               \<and> length out = length rows
               \<and> out ! i = hd (rows ! i) # replicate (length (rows ! i) - 1) 0))"
proof -
  have ne: "rows ! i \<noteq> []"
    using assms by (metis nth_mem)
  have erased: "\<exists>out. each_row (zero_after_first sep) rows = Inr out
                  \<and> length out = length rows
                  \<and> out ! i = hd (rows ! i) # replicate (length (rows ! i) - 1) 0"
    if absent: "sep \<notin> set (rows ! i)" for sep
  proof -
    have "\<And>r. r \<in> set rows \<Longrightarrow> \<exists>out. zero_after_first sep r = Inr out"
      using assms(2) zero_after_first_returns by blast
    then obtain outs where outs: "each_row (zero_after_first sep) rows = Inr outs"
        "length outs = length rows"
        "\<forall>k<length rows. zero_after_first sep (rows ! k) = Inr (outs ! k)"
      using each_row_returns [of rows "zero_after_first sep"] by blast
    have "zero_after_first sep (rows ! i) = Inr (outs ! i)"
      using outs(3) assms(1) by blast
    then have "outs ! i = hd (rows ! i) # replicate (length (rows ! i) - 1) 0"
      using zero_after_first_absent [OF ne absent] by simp
    then show ?thesis
      using outs(1,2) by blast
  qed
  show ?thesis
    using erased [of 102] erased [of 5]
    by (auto simp: get_ids_for_local_context_extractor_def
        get_batch_token_labels_bert_base_indices_def)
qed

theorem no_separator_row_is_erased_witness:
  "(\<exists>out. get_ids_for_local_context_extractor [[101, 7, 102, 9, 0], [101, 7, 8, 9, 0]] = Inr out
      \<and> length out = 2 \<and> out ! 1 = [101, 0, 0, 0, 0])
   \<and> (\<exists>out. get_batch_token_labels_bert_base_indices (Some [[101, 7, 102, 9, 0], [101, 7, 8, 9, 0]])
          = Inr (Some out)
      \<and> length out = 2 \<and> out ! 1 = [101, 0, 0, 0, 0])"
  using no_separator_row_is_erased [of 1 "[[101, 7, 102, 9, 0], [101, 7, 8, 9, 0]]"]
  by (simp add: numeral_2_eq_2)

section \<open>The label set that a dataset accepts\<close>

lemma sort_py_range: "sort (py_range n) = sorted_list_of_set {0..n - 1}"
  by (simp add: py_range_def sorted_lift_of_set_eq_upto sorted_sort_id)

lemma zero_mem_dense:
  fixes S :: "int set"
  assumes "S \<noteq> {}" and "S = {0..m}"
  shows "0 \<in> S"
proof -
  have "{0..m} \<noteq> {}" using assms by blast
  then have "0 \<le> m" by simp
  then have "0 \<in> {0..m}" by simp
  then show ?thesis by (simp only: assms(2))
qed

lemma assert_holds_iff:
  assumes "finite S" "S \<noteq> {}" "0 \<le> Min S"
  shows "(sorted_list_of_set S = sort (py_range (Max S - Min S + 1))) = (S = {0..Max S})"
proof
  assume "sorted_list_of_set S = sort (py_range (Max S - Min S + 1))"
  then have "sorted_list_of_set S = sorted_list_of_set {0..Max S - Min S}"
    by (simp only: sort_py_range add_diff_cancel_right')
  then have S: "S = {0..Max S - Min S}"
    using assms(1) sorted_list_of_set_inject [of S "{0..Max S - Min S}"] by simp
  have "0 \<in> S"
    using assms(2) S by (rule zero_mem_dense)
  then have "Min S \<le> 0" using assms(1) by simp
  then have "Min S = 0" using assms(3) by simp
  then show "S = {0..Max S}" using S by simp
next
  assume S: "S = {0..Max S}"
  have "0 \<in> S"
    using assms(2) S by (rule zero_mem_dense)
  then have "Min S \<le> 0" using assms(1) by simp
  then have "Min S = 0" using assms(3) by simp
  then have "sort (py_range (Max S - Min S + 1)) = sorted_list_of_set {0..Max S}"
    by (simp only: sort_py_range add_diff_cancel_right' diff_zero)
  then show "sorted_list_of_set S = sort (py_range (Max S - Min S + 1))"
    using S by simp
qed

lemma card_from_zero: "0 \<le> m \<Longrightarrow> int (card {0..m::int}) = m + 1"
  by simp

lemma infer_polarities_dim_cases:
  "infer_polarities_dim cap ps =
     (if ps = [] then Inl ValueError
      else if Min (set ps) < 0 then Inl RuntimeError
      else if 2 ^ 63 - 1 < Max (set ps) - Min (set ps) + 1 then Inl OverflowError
      else if cap < Max (set ps) - Min (set ps) + 1 then Inl MemoryError
      else if set ps = {0..Max (set ps)} then Inr (nat (Max (set ps) - Min (set ps) + 1))
      else Inl AssertionError)"
proof -
  define S where "S = set ps"
  define M where "M = Max S"
  define m where "m = Min S"
  have unfolded: "infer_polarities_dim cap ps =
     (if S = {} then Inl ValueError
      else if m < 0 then Inl RuntimeError
      else if 2 ^ 63 - 1 < M - m + 1 then Inl OverflowError
      else if cap < M - m + 1 then Inl MemoryError
      else if sorted_list_of_set S \<noteq> sort (py_range (M - m + 1)) then Inl AssertionError
      else Inr (card S))"
    by (simp only: infer_polarities_dim_def py_list_range_def Let_def S_def M_def m_def
        if_distrib [of "case_sum Inl _"] sum.case cong: if_cong)
  have fin: "finite S" by (simp add: S_def)
  have tail: "(if sorted_list_of_set S \<noteq> sort (py_range (M - m + 1)) then Inl AssertionError
               else Inr (card S))
            = (if S = {0..M} then Inr (nat (M - m + 1)) else Inl AssertionError :: py_error + nat)"
    if ne: "S \<noteq> {}" and min0: "\<not> m < 0"
  proof -
    have min0': "0 \<le> Min S" using min0 by (simp only: m_def not_less)
    have iff: "(sorted_list_of_set S = sort (py_range (M - m + 1))) = (S = {0..M})"
      using assert_holds_iff [OF fin ne min0'] by (simp only: M_def m_def)
    show ?thesis
    proof (cases "S = {0..M}")
      case True
      have z: "0 \<in> S" using ne True by (rule zero_mem_dense)
      have "Min S \<le> 0" using fin z by (rule Min_le)
      then have "Min S = 0" using min0' by linarith
      then have m0: "m = 0" by (simp only: m_def)
      have "0 \<le> Max S" using fin z by (rule Max_ge)
      then have "0 \<le> M" by (simp only: M_def)
      then have "int (card {0..M}) = M + 1" by (rule card_from_zero)
      then have "int (card S) = M - m + 1" using True m0 by simp
      then have "card S = nat (M - m + 1)" by linarith
      then show ?thesis using True iff by simp
    next
      case False
      then show ?thesis using iff by simp
    qed
  qed
  have "infer_polarities_dim cap ps =
     (if S = {} then Inl ValueError
      else if m < 0 then Inl RuntimeError
      else if 2 ^ 63 - 1 < M - m + 1 then Inl OverflowError
      else if cap < M - m + 1 then Inl MemoryError
      else if S = {0..M} then Inr (nat (M - m + 1))
      else Inl AssertionError)"
    using tail by (simp only: unfolded split: if_splits) presburger
  moreover have "(S = {}) = (ps = [])" by (simp add: S_def)
  ultimately show ?thesis
    by (simp only: S_def M_def m_def)
qed

lemma infer_polarities_dim_Inr_iff:
  "(infer_polarities_dim cap ps = Inr d) =
      (ps \<noteq> [] \<and> set ps = {0..Max (set ps)} \<and> Max (set ps) + 1 \<le> min cap (2 ^ 63 - 1)
       \<and> int d = Max (set ps) - Min (set ps) + 1)"
proof -
  define S where "S = set ps"
  define M where "M = Max S"
  define m where "m = Min S"
  have fin: "finite S" by (simp add: S_def)
  have cases: "infer_polarities_dim cap ps =
     (if ps = [] then Inl ValueError
      else if m < 0 then Inl RuntimeError
      else if 2 ^ 63 - 1 < M - m + 1 then Inl OverflowError
      else if cap < M - m + 1 then Inl MemoryError
      else if S = {0..M} then Inr (nat (M - m + 1))
      else Inl AssertionError)"
    by (simp only: S_def M_def m_def infer_polarities_dim_cases)
  have dense: "m = 0 \<and> 0 \<le> M" if "ps \<noteq> []" "S = {0..M}"
  proof -
    have ne: "S \<noteq> {}" using that(1) by (simp add: S_def)
    have z: "0 \<in> S" using ne that(2) by (rule zero_mem_dense)
    have "Min S \<in> S" using fin ne by (rule Min_in)
    then have "m \<in> {0..M}" using that(2) by (simp only: m_def)
    then have lo: "0 \<le> m" by simp
    have "Min S \<le> 0" using fin z by (rule Min_le)
    then have hi: "m \<le> 0" by (simp only: m_def)
    have "0 \<le> Max S" using fin z by (rule Max_ge)
    then have "0 \<le> M" by (simp only: M_def)
    then show ?thesis using lo hi by linarith
  qed
  have "(infer_polarities_dim cap ps = Inr d) =
      (ps \<noteq> [] \<and> S = {0..M} \<and> M + 1 \<le> min cap (2 ^ 63 - 1) \<and> int d = M - m + 1)"
  proof (cases "ps \<noteq> [] \<and> S = {0..M}")
    case True
    then have "m = 0" "0 \<le> M" using dense by simp_all
    then show ?thesis
      using True by (simp only: cases) (auto simp: min_def)
  next
    case False
    then show ?thesis
      by (simp only: cases) auto
  qed
  then show ?thesis
    by (simp only: S_def M_def m_def)
qed

lemma infer_polarities_dim_example: "infer_polarities_dim 1000000 [2, 0, 1, 1, 2] = Inr 3"
  by code_simp

lemma infer_polarities_dim_overflow: "infer_polarities_dim 1000000 [2 ^ 63, 0] = Inl OverflowError"
  by code_simp

text \<open>
  C3, as the code has it. The labels \<open>1, 2, 3\<close> are exactly the range from their minimum
  to their maximum, and the dataset is refused: the assertion compares the sorted labels
  with \<^verbatim>\<open>range(p_max - p_min + 1)\<close>, which starts at 0.
\<close>

theorem labels_from_one_are_refused:
  "set [1, 2, 3 :: int] = {Min (set [1, 2, 3]) .. Max (set [1, 2, 3])}
   \<and> infer_polarities_dim 1000000 [1, 2, 3] = Inl AssertionError"
proof
  show "set [1, 2, 3 :: int] = {Min (set [1, 2, 3]) .. Max (set [1, 2, 3])}"
    by auto
  show "infer_polarities_dim 1000000 [1, 2, 3] = Inl AssertionError"
    by code_simp
qed

text \<open>
  C3, amended. The dataset is built, with dimensionality \<open>d\<close>, exactly when there is at
  least one label, the labels seen are exactly \<open>0, ..., max\<close>, a list of \<open>max + 1\<close>
  integers can be built, and \<open>d = max - min + 1\<close> (which is then \<open>max + 1\<close>). Every other
  list of labels makes the constructor raise, and the second part says what: \<^verbatim>\<open>ValueError\<close>
  when no label was read; else \<^verbatim>\<open>RuntimeError\<close> when the minimum is negative; else
  \<^verbatim>\<open>OverflowError\<close> or \<^verbatim>\<open>MemoryError\<close> when \<open>max - min + 1\<close> is more than a list can hold;
  else \<^verbatim>\<open>AssertionError\<close>.
\<close>

theorem polarities_dim_dense_from_zero:
  "((infer_polarities_dim cap ps = Inr d) =
      (ps \<noteq> [] \<and> set ps = {0..Max (set ps)} \<and> Max (set ps) + 1 \<le> min cap (2 ^ 63 - 1)
       \<and> int d = Max (set ps) - Min (set ps) + 1))
   \<and> infer_polarities_dim cap ps =
       (if ps = [] then Inl ValueError
        else if Min (set ps) < 0 then Inl RuntimeError
        else if 2 ^ 63 - 1 < Max (set ps) - Min (set ps) + 1 then Inl OverflowError
        else if cap < Max (set ps) - Min (set ps) + 1 then Inl MemoryError
        else if set ps = {0..Max (set ps)} then Inr (nat (Max (set ps) - Min (set ps) + 1))
        else Inl AssertionError)"
  using infer_polarities_dim_Inr_iff [of cap ps d] infer_polarities_dim_cases [of cap ps]
  by (rule conjI)

section \<open>An invalid accumulation factor under \<^verbatim>\<open>train4atepc\<close>\<close>

lemma Instructor_init_invalid:
  assumes "gradient_accumulation_steps opt < 1"
  shows "snd (Instructor_init build opt) = Inl ValueError"
    and "gradient_accumulation_steps (fst (Instructor_init build opt))
           = gradient_accumulation_steps opt"
  using assms by (simp_all add: Instructor_init_def Let_def)

lemma train4atepc_invalid_never_leaves:
  "gradient_accumulation_steps opt < 1 \<Longrightarrow>
     train4atepc fuel build train attempt opt = (60 * fuel, Retrying)"
proof (induction fuel arbitrary: attempt opt)
  case 0
  show ?case by simp
next
  case (Suc fuel)
  obtain opt' r where init: "Instructor_init (build attempt) opt = (opt', r)"
    by (cases "Instructor_init (build attempt) opt")
  have r: "r = Inl ValueError" and g: "gradient_accumulation_steps opt' < 1"
    using Instructor_init_invalid [OF Suc.prems, of "build attempt"] init Suc.prems
    by simp_all
  show ?case
    using Suc.IH [OF g, of "Suc attempt"] init r by simp
qed

lemma connection_error_is_not_retried:
  assumes "1 \<le> gradient_accumulation_steps opt"
    and "\<And>x. build attempt x = Inl ConnectionError"
  shows "train4atepc (Suc fuel) build train attempt opt = (0, Raised ConnectionError)"
  using assms by (simp add: Instructor_init_def Let_def)

lemma train_error_leaves_train4atepc:
  assumes "Instructor_init (build attempt) opt = (opt', Inr trainer)"
    and "train trainer = Inl e"
  shows "train4atepc (Suc fuel) build train attempt opt = (0, Raised e)"
  using assms by simp

text \<open>
  C1, on the code: with \<^verbatim>\<open>gradient_accumulation_steps = 0\<close> the \<^verbatim>\<open>ValueError\<close> of the
  constructor is caught by \<^verbatim>\<open>except ValueError\<close>. However many constructions the loop
  is allowed, it has slept 60 seconds after each of them and is still retrying; the
  error never leaves \<^verbatim>\<open>train4atepc\<close>.
\<close>

theorem zero_accumulation_is_retried_forever:
  "train4atepc fuel build train attempt opt_zero_accumulation = (60 * fuel, Retrying)"
  by (rule train4atepc_invalid_never_leaves) (simp add: opt_zero_accumulation_def)

section \<open>The step counter\<close>

lemma train_batch_steps:
  "global_step (train_batch c) = global_step c + 2"
  "optimizer_steps (train_batch c) = optimizer_steps c + 1"
  "forward_passes (train_batch c) = forward_passes c + 1"
  by (simp_all add: train_batch_def Let_def)

lemma batches_steps:
  "global_step (foldl (\<lambda>c batch. train_batch c) c batches) = global_step c + 2 * length batches
   \<and> optimizer_steps (foldl (\<lambda>c batch. train_batch c) c batches)
       = optimizer_steps c + length batches"
  by (induction batches arbitrary: c) (simp_all add: train_batch_steps)

lemma train_epoch_steps:
  "global_step (train_epoch batches c) = global_step c + 2 * length batches"
  "optimizer_steps (train_epoch batches c) = optimizer_steps c + length batches"
  using batches_steps [of "c\<lparr>nb_tr_steps := 0\<rparr>" batches] by (simp_all add: train_epoch_def)

lemma epochs_steps:
  "global_step (foldl (\<lambda>c epoch. train_epoch batches c) c epochs)
     = global_step c + 2 * (length epochs * length batches)
   \<and> optimizer_steps (foldl (\<lambda>c epoch. train_epoch batches c) c epochs)
     = optimizer_steps c + length epochs * length batches"
  by (induction epochs arbitrary: c) (simp_all add: train_epoch_steps algebra_simps)

text \<open>
  C4, on the code: after training, the step counter is twice the number of batches that
  were processed, while the optimizer has stepped once per batch. One epoch over one
  batch leaves \<^verbatim>\<open>global_step = 2\<close>.
\<close>

theorem global_step_counts_each_batch_twice:
  "global_step (train_counters num_epoch batches) = 2 * (num_epoch * length batches)
   \<and> optimizer_steps (train_counters num_epoch batches) = num_epoch * length batches
   \<and> global_step (train_counters 1 [b]) = 2"
proof -
  have "global_step (train_counters n bs) = 2 * (n * length bs)
      \<and> optimizer_steps (train_counters n bs) = n * length bs" for n and bs :: "'c list"
    using epochs_steps [of bs _ "[0..<n]"] by (simp add: train_counters_def)
  from this [of num_epoch batches] this [of 1 "[b]"] show ?thesis
    by simp
qed

section \<open>The order of the held-out examples\<close>

text \<open>
  C5, on the code: the loader of the held-out split is built on a \<^verbatim>\<open>RandomSampler\<close> (and
  the training loader on a \<^verbatim>\<open>SequentialSampler\<close>), so the order in which \<^verbatim>\<open>evaluate\<close>
  meets the examples is the permutation drawn for the pass: two passes over the same
  two examples with different draws meet them in different orders.
\<close>

theorem evaluation_order_follows_the_draw:
  "eval_sampler Instructor_loaders = RandomSampler
   \<and> train_sampler Instructor_loaders = SequentialSampler
   \<and> AspectExtractor_sampler = SequentialSampler
   \<and> evaluate_order [0, 1] [''first'', ''second''] = [''first'', ''second'']
   \<and> evaluate_order [1, 0] [''first'', ''second''] = [''second'', ''first'']"
  by (simp add: Instructor_loaders_def AspectExtractor_sampler_def evaluate_order_def
      sampler_indices_def)

section \<open>Weight decay of the parameter groups\<close>

lemma py_in_sublist: "py_in s t = sublist s t"
  by (induction t) (auto simp: sublist_Cons_right)

lemma both_groups_decay:
  "map weight_decay (optimizer_grouped_parameters l2reg ps) = [l2reg, l2reg]"
  by (simp add: optimizer_grouped_parameters_def)

text \<open>
  C6, on the code: with \<^verbatim>\<open>l2reg = 0.00001\<close> and the parameters \<^verbatim>\<open>dense.weight\<close> and
  \<^verbatim>\<open>dense.bias\<close>, the bias lands in the second group, and that group has weight decay
  \<^verbatim>\<open>l2reg\<close>, not 0.
\<close>

theorem bias_group_gets_l2reg:
  "optimizer_grouped_parameters (1 / 100000) [(''dense.weight'', 0::nat), (''dense.bias'', 1)]
     = [\<lparr>params = [0], weight_decay = 1 / 100000\<rparr>,
        \<lparr>params = [1], weight_decay = 1 / 100000\<rparr>]"
  by (simp add: optimizer_grouped_parameters_def no_decay_def)

section \<open>Running maxima and checkpoints\<close>

lemma metrics_le_refl: "metrics_le m m"
  by (simp add: metrics_le_def)

lemma metrics_le_trans: "metrics_le a b \<Longrightarrow> metrics_le b c \<Longrightarrow> metrics_le a c"
  by (auto simp: metrics_le_def)

lemma update_max_ge: "metrics_le m (update_max m ev)"
  by (simp add: metrics_le_def update_max_def Let_def)

lemma max_metrics_after_evaluation:
  "max_metrics (after_evaluation p st ev) = update_max (max_metrics st) ev"
  by (simp add: after_evaluation_def Let_def)

lemma saved_after_evaluation:
  "saved (after_evaluation p st ev) =
     saved st @ (if truthy p \<and> improved (max_metrics st) ev then [ev] else [])"
  by (simp add: after_evaluation_def Let_def)

lemma foldl_monotone:
  "metrics_le (max_metrics st) (max_metrics (foldl (after_evaluation p) st evs))"
proof (induction evs arbitrary: st)
  case Nil
  show ?case by (simp add: metrics_le_refl)
next
  case (Cons ev evs)
  have "metrics_le (max_metrics st) (max_metrics (after_evaluation p st ev))"
    by (simp add: max_metrics_after_evaluation update_max_ge)
  then show ?case
    using Cons.IH [of "after_evaluation p st ev"] by (auto intro: metrics_le_trans)
qed

lemma after_take_Suc:
  assumes "k < length evs"
  shows "after_evaluations p (take (Suc k) evs)
           = after_evaluation p (after_evaluations p (take k evs)) (evs ! k)"
  using assms by (simp add: after_evaluations_def take_Suc_conv_app_nth)

lemma after_monotone:
  assumes "i \<le> j"
  shows "metrics_le (max_metrics (after_evaluations p (take i evs)))
           (max_metrics (after_evaluations p (take j evs)))"
proof -
  have "take j evs = take i evs @ drop i (take j evs)"
    using assms by (metis append_take_drop_id min.absorb_iff1 take_take)
  then have "after_evaluations p (take j evs)
      = foldl (after_evaluation p) (after_evaluations p (take i evs)) (drop i (take j evs))"
    by (metis after_evaluations_def foldl_append)
  then show ?thesis
    by (simp add: foldl_monotone)
qed

text \<open>
  C2. Take the evaluations of one run in order and look at the state after the first
  \<open>i\<close> and after the first \<open>j\<close> of them, \<open>i \<le> j\<close>: none of the three maxima is smaller
  after \<open>j\<close>. At the evaluation with index \<open>k\<close>, the list of saves grows by exactly one
  entry when a save path is configured and one of the three current metrics is above
  its maximum before that evaluation, and does not change otherwise; so there is one
  save at most per evaluation, however many metrics improve.
\<close>

theorem maxima_never_decrease_and_save_iff_improved:
  assumes "i \<le> j" and "k < length evs"
  shows "max_apc_test_acc (max_metrics (after_evaluations p (take i evs)))
           \<le> max_apc_test_acc (max_metrics (after_evaluations p (take j evs)))
       \<and> max_apc_test_f1 (max_metrics (after_evaluations p (take i evs)))
           \<le> max_apc_test_f1 (max_metrics (after_evaluations p (take j evs)))
       \<and> max_ate_test_f1 (max_metrics (after_evaluations p (take i evs)))
           \<le> max_ate_test_f1 (max_metrics (after_evaluations p (take j evs)))
       \<and> saved (after_evaluations p (take (Suc k) evs))
           = saved (after_evaluations p (take k evs))
             @ (if truthy p \<and> improved (max_metrics (after_evaluations p (take k evs))) (evs ! k)
                then [evs ! k] else [])"
proof -
  have "metrics_le (max_metrics (after_evaluations p (take i evs)))
          (max_metrics (after_evaluations p (take j evs)))"
    using assms(1) by (rule after_monotone)
  moreover have "saved (after_evaluations p (take (Suc k) evs))
           = saved (after_evaluations p (take k evs))
             @ (if truthy p \<and> improved (max_metrics (after_evaluations p (take k evs))) (evs ! k)
                then [evs ! k] else [])"
    using after_take_Suc [OF assms(2)] by (simp add: saved_after_evaluation)
  ultimately show ?thesis
    by (simp add: metrics_le_def)
qed

lemma three_evaluations:
  "after_evaluations (Some ''state_dict'') [evaluation_a, evaluation_b, evaluation_c]
     = \<lparr>max_metrics = \<lparr>max_apc_test_acc = 80, max_apc_test_f1 = 72, max_ate_test_f1 = 60\<rparr>,
        saved = [evaluation_a, evaluation_b]\<rparr>"
  by (simp add: after_evaluations_def after_evaluation_def train_start_def truthy_def
      improved_def update_max_def Let_def evaluation_a_def evaluation_b_def evaluation_c_def)

theorem maxima_never_decrease_and_save_iff_improved_witness:
  "max_apc_test_acc (max_metrics (after_evaluations (Some ''state_dict'')
        (take 1 [evaluation_a, evaluation_b, evaluation_c])))
     \<le> max_apc_test_acc (max_metrics (after_evaluations (Some ''state_dict'')
        (take 3 [evaluation_a, evaluation_b, evaluation_c])))
   \<and> saved (after_evaluations (Some ''state_dict'')
        (take (Suc 2) [evaluation_a, evaluation_b, evaluation_c]))
     = saved (after_evaluations (Some ''state_dict'')
        (take 2 [evaluation_a, evaluation_b, evaluation_c])) @ []
   \<and> saved (after_evaluations (Some ''state_dict'')
        (take (Suc 2) [evaluation_a, evaluation_b, evaluation_c])) = [evaluation_a, evaluation_b]"
  using maxima_never_decrease_and_save_iff_improved
          [of 1 3 2 "[evaluation_a, evaluation_b, evaluation_c]" "Some ''state_dict''"]
        three_evaluations
  by (simp add: after_evaluations_def after_evaluation_def train_start_def truthy_def
      improved_def update_max_def Let_def evaluation_a_def evaluation_b_def evaluation_c_def)

section \<open>Errors during batch inference\<close>

lemma loop_all_ok:
  assumes "\<forall>i<length xs. one_example ex cl ps (xs ! i) = Inr (rs ! i)" "length rs = length xs"
  shows "extract_aspect_loop ex cl ps xs seen results = (seen @ xs, Inr (results @ rs))"
  using assms
proof (induction xs arbitrary: seen results rs)
  case Nil
  then show ?case by simp
next
  case (Cons x xs)
  then obtain r rs' where rs: "rs = r # rs'" by (cases rs) auto
  have first: "one_example ex cl ps x = Inr r"
    using Cons.prems(1) rs by force
  have others: "\<forall>i<length xs. one_example ex cl ps (xs ! i) = Inr (rs' ! i)"
    using Cons.prems(1) rs by force
  have len: "length rs' = length xs" using Cons.prems(2) rs by simp
  note IH = Cons.IH [OF others len]
  show ?case
    using first rs IH
    by (auto simp: one_example_def split: sum.splits if_splits)
qed

lemma loop_first_failure:
  assumes "k < length xs" "one_example ex cl ps (xs ! k) = Inl e"
    "\<forall>i<k. \<exists>r. one_example ex cl ps (xs ! i) = Inr r"
  shows "extract_aspect_loop ex cl ps xs seen results = (seen @ take (Suc k) xs, Inl e)"
  using assms
proof (induction xs arbitrary: seen results k)
  case Nil
  then show ?case by simp
next
  case (Cons x xs)
  show ?case
  proof (cases k)
    case 0
    then show ?thesis
      using Cons.prems(2) by (auto simp: one_example_def split: sum.splits if_splits)
  next
    case (Suc k')
    have k': "k' < length xs" using Cons.prems(1) Suc by simp
    have f: "one_example ex cl ps (xs ! k') = Inl e" using Cons.prems(2) Suc by simp
    have ok: "\<forall>i<k'. \<exists>r. one_example ex cl ps (xs ! i) = Inr r"
      using Cons.prems(3) Suc by force
    obtain r where r: "one_example ex cl ps x = Inr r"
      using Cons.prems(3) Suc by force
    note IH = Cons.IH [OF k' f ok]
    show ?thesis
      using r IH Suc by (auto simp: one_example_def split: sum.splits if_splits)
  qed
qed

lemma extract_aspect_on_a_list:
  "(length rs = length xs \<and> (\<forall>i<length xs. one_example ex cl ps (xs ! i) = Inr (rs ! i))
      \<longrightarrow> extract_aspect ex cl ps (Examples xs) = (xs, Inr (Many rs)))
   \<and> (k < length xs \<and> one_example ex cl ps (xs ! k) = Inl e
        \<and> (\<forall>i<k. \<exists>r. one_example ex cl ps (xs ! i) = Inr r)
      \<longrightarrow> extract_aspect ex cl ps (Examples xs) = (take (Suc k) xs, Inl e))"
proof (intro conjI impI)
  assume "length rs = length xs \<and> (\<forall>i<length xs. one_example ex cl ps (xs ! i) = Inr (rs ! i))"
  then have "extract_aspect_loop ex cl ps xs [] [] = ([] @ xs, Inr ([] @ rs))"
    by (intro loop_all_ok) auto
  then show "extract_aspect ex cl ps (Examples xs) = (xs, Inr (Many rs))"
    by (simp add: extract_aspect_def)
next
  assume "k < length xs \<and> one_example ex cl ps (xs ! k) = Inl e
        \<and> (\<forall>i<k. \<exists>r. one_example ex cl ps (xs ! i) = Inr r)"
  then have "extract_aspect_loop ex cl ps xs [] [] = ([] @ take (Suc k) xs, Inl e)"
    by (intro loop_first_failure) auto
  then show "extract_aspect ex cl ps (Examples xs) = (take (Suc k) xs, Inl e)"
    by (simp add: extract_aspect_def)
qed


section \<open>Self-attention on the local branch\<close>

lemma cat2_last:
  "cat_shapes (- 1) [b, l, h] [[b, l, h']] = Inr [b, l, h + h']"
  by (simp add: cat_shapes_def Let_def)

lemma cat3_last:
  "cat_shapes (- 1) [b, l, h] [[b, l, h'], [b, l, h'']] = Inr [b, l, h + h' + h'']"
  by (simp add: cat_shapes_def Let_def)

text \<open>
  C9, as the code has it: with \<^verbatim>\<open>lcf = 'fusion'\<close> the two weighted local outputs go
  into the concatenation as they are; \<open>SA1\<close> is not applied to them.
\<close>

theorem fusion_skips_SA1:
  "cat_out ''fusion'' True True
     = Inr (Linear_triple (Cat3 (- 1) Global_context_out (Mul Local_context_out Lcf_cdw_vec)
              (Mul Local_context_out Lcf_cdm_vec)))
   \<and> (\<exists>t. cat_out ''fusion'' True True = Inr t \<and> \<not> weighted_through_SA1 t)"
  by (simp add: cat_out_def)

text \<open>
  C9, amended. Let both fusion vectors be given, with shapes that broadcast with the
  local encoder output to \<open>[batch, max_len, hidden_dim]\<close>. When \<^verbatim>\<open>'cdm'\<close> occurs in
  \<^verbatim>\<open>lcf\<close>, or else \<^verbatim>\<open>'cdw'\<close>, the local output weighted by that vector passes through \<open>SA1\<close>
  and keeps its shape; it is concatenated behind the global features along the last,
  hidden axis, which gives width \<open>2 * hidden_dim\<close>, and \<open>linear_double\<close> projects that
  down to \<open>hidden_dim\<close>. When neither occurs and \<^verbatim>\<open>'fusion'\<close> does, the two weighted local
  outputs are concatenated with the global features along the hidden axis without
  \<open>SA1\<close>, which gives width \<open>3 * hidden_dim\<close>, and \<open>linear_triple\<close> projects that down to
  \<open>hidden_dim\<close>. Batch and sequence axes are unchanged throughout.
\<close>

theorem cat_out_by_lcf_mode:
  assumes cdm: "broadcast [batch d, max_len d, hidden_dim d] (cdm_shape d)
             = Inr [batch d, max_len d, hidden_dim d]"
    and cdw: "broadcast [batch d, max_len d, hidden_dim d] (cdw_shape d)
             = Inr [batch d, max_len d, hidden_dim d]"
  shows "(py_in ''cdm'' lcf \<longrightarrow>
           cat_out lcf True True
             = Inr (Linear_double (Cat2 (- 1) Global_context_out
                      (SA1 (Mul Local_context_out Lcf_cdm_vec))))
           \<and> shape_of d (SA1 (Mul Local_context_out Lcf_cdm_vec))
             = Inr [batch d, max_len d, hidden_dim d]
           \<and> shape_of d (Cat2 (- 1) Global_context_out (SA1 (Mul Local_context_out Lcf_cdm_vec)))
             = Inr [batch d, max_len d, 2 * hidden_dim d]
           \<and> shape_of d (Linear_double (Cat2 (- 1) Global_context_out
                      (SA1 (Mul Local_context_out Lcf_cdm_vec))))
             = Inr [batch d, max_len d, hidden_dim d])
       \<and> (\<not> py_in ''cdm'' lcf \<and> py_in ''cdw'' lcf \<longrightarrow>
           cat_out lcf True True
             = Inr (Linear_double (Cat2 (- 1) Global_context_out
                      (SA1 (Mul Local_context_out Lcf_cdw_vec))))
           \<and> shape_of d (SA1 (Mul Local_context_out Lcf_cdw_vec))
             = Inr [batch d, max_len d, hidden_dim d]
           \<and> shape_of d (Cat2 (- 1) Global_context_out (SA1 (Mul Local_context_out Lcf_cdw_vec)))
             = Inr [batch d, max_len d, 2 * hidden_dim d]
           \<and> shape_of d (Linear_double (Cat2 (- 1) Global_context_out
                      (SA1 (Mul Local_context_out Lcf_cdw_vec))))
             = Inr [batch d, max_len d, hidden_dim d])
       \<and> (\<not> py_in ''cdm'' lcf \<and> \<not> py_in ''cdw'' lcf \<and> py_in ''fusion'' lcf \<longrightarrow>
           cat_out lcf True True
             = Inr (Linear_triple (Cat3 (- 1) Global_context_out
                      (Mul Local_context_out Lcf_cdw_vec) (Mul Local_context_out Lcf_cdm_vec)))
           \<and> shape_of d (Cat3 (- 1) Global_context_out
                      (Mul Local_context_out Lcf_cdw_vec) (Mul Local_context_out Lcf_cdm_vec))
             = Inr [batch d, max_len d, 3 * hidden_dim d]
           \<and> shape_of d (Linear_triple (Cat3 (- 1) Global_context_out
                      (Mul Local_context_out Lcf_cdw_vec) (Mul Local_context_out Lcf_cdm_vec)))
             = Inr [batch d, max_len d, hidden_dim d])"
  using cdm cdw
  by (simp add: cat_out_def encoder_shape_def linear_shape_def cat2_last cat3_last mult.commute)


theorem cat_out_by_lcf_mode_witness:
  "cat_out ''cdm'' True True
     = Inr (Linear_double (Cat2 (- 1) Global_context_out
              (SA1 (Mul Local_context_out Lcf_cdm_vec))))
   \<and> shape_of dims_demo (SA1 (Mul Local_context_out Lcf_cdm_vec)) = Inr [16, 80, 768]
   \<and> shape_of dims_demo (Cat2 (- 1) Global_context_out (SA1 (Mul Local_context_out Lcf_cdm_vec)))
     = Inr [16, 80, 1536]
   \<and> shape_of dims_demo (Linear_double (Cat2 (- 1) Global_context_out
              (SA1 (Mul Local_context_out Lcf_cdm_vec)))) = Inr [16, 80, 768]
   \<and> cat_out ''cdw'' True True
     = Inr (Linear_double (Cat2 (- 1) Global_context_out
              (SA1 (Mul Local_context_out Lcf_cdw_vec))))
   \<and> shape_of dims_demo (Cat2 (- 1) Global_context_out (SA1 (Mul Local_context_out Lcf_cdw_vec)))
     = Inr [16, 80, 1536]
   \<and> cat_out ''fusion'' True True
     = Inr (Linear_triple (Cat3 (- 1) Global_context_out (Mul Local_context_out Lcf_cdw_vec)
              (Mul Local_context_out Lcf_cdm_vec)))
   \<and> shape_of dims_demo (Cat3 (- 1) Global_context_out (Mul Local_context_out Lcf_cdw_vec)
              (Mul Local_context_out Lcf_cdm_vec)) = Inr [16, 80, 2304]
   \<and> shape_of dims_demo (Linear_triple (Cat3 (- 1) Global_context_out
              (Mul Local_context_out Lcf_cdw_vec) (Mul Local_context_out Lcf_cdm_vec)))
     = Inr [16, 80, 768]"
  using cat_out_by_lcf_mode [of dims_demo "''cdm''"] cat_out_by_lcf_mode [of dims_demo "''cdw''"]
    cat_out_by_lcf_mode [of dims_demo "''fusion''"]
  by (simp add: dims_demo_def broadcast_def cat_out_def encoder_shape_def linear_shape_def
      cat_shapes_def Let_def)

section \<open>One tuple per aspect span\<close>

lemma decode_loop_length:
  "length pred_iobs \<le> n \<Longrightarrow> length (decode_loop lm n row pred_iobs) \<le> n"
  by (induction row arbitrary: pred_iobs) auto

lemma decode_iobs_length: "length (decode_iobs label_list tokens ate_row) \<le> length tokens"
  by (simp add: decode_iobs_def decode_loop_length)

lemma has_ASP_tags [simp]:
  "has_ASP ''B-ASP''" "has_ASP ''I-ASP''" "\<not> has_ASP ''O''"
  by (simp_all add: has_ASP_def)

lemma no_ASP_not_span_tag:
  "\<not> has_ASP t \<Longrightarrow> t \<noteq> ''B-ASP'' \<and> t \<noteq> ''I-ASP''"
  by auto

lemma first_boundary_at_run_end:
  assumes pre: "\<forall>t\<in>set pre. \<not> has_ASP t"
    and run: "run \<noteq> []" "\<forall>t\<in>set run. has_ASP t" "last run = ''B-ASP'' \<or> last run = ''I-ASP''"
    and m: "\<not> has_ASP m"
  shows "first_boundary (pre @ run @ m # rest) = Some (length pre + length run - 1)"
proof -
  let ?xs = "pre @ run @ m # rest"
  let ?i = "length pre + length run - 1"
  have len: "length ?xs - 1 = length pre + length run + length rest" by simp
  have i_lt: "?i < length ?xs - 1" using run(1) by (cases run) auto
  have i_eq: "?i = length pre + (length run - 1)" and r_lt: "length run - 1 < length run"
    using run(1) by (cases run; simp)+
  have "?xs ! (length pre + (length run - 1)) = (run @ m # rest) ! (length run - 1)"
    by (rule nth_append_length_plus)
  also have "\<dots> = run ! (length run - 1)"
    using r_lt by (rule nth_append_left)
  finally have "?xs ! (length pre + (length run - 1)) = run ! (length run - 1)" .
  then have at_i: "?xs ! ?i = last run"
    using run(1) i_eq by (simp add: last_conv_nth)
  have "Suc ?i = length pre + length run" using run(1) by (cases run) auto
  then have at_Si: "?xs ! (?i + 1) = m"
    by (simp add: nth_append)
  have closes: "closes_span ?xs ?i"
    using at_i at_Si run(3) m by (auto simp: closes_span_def)
  have before: "\<not> closes_span ?xs j" if "j < ?i" for j
  proof (cases "j < length pre")
    case True
    then have "?xs ! j \<in> set pre" by (simp add: nth_append)
    then have "\<not> has_ASP (?xs ! j)" using pre by blast
    then show ?thesis
      using no_ASP_not_span_tag [of "?xs ! j"] by (auto simp: closes_span_def)
  next
    case False
    then have lt: "j + 1 - length pre < length run" using that by linarith
    have "?xs ! (j + 1) = run ! (j + 1 - length pre)"
      using False lt by (simp add: nth_append)
    then have "?xs ! (j + 1) \<in> set run" using lt by simp
    then have "has_ASP (?xs ! (j + 1))" using run(2) by blast
    then show ?thesis by (simp add: closes_span_def)
  qed
  have "find (closes_span ?xs) [0..<length ?xs - 1] = Some ?i"
    unfolding find_Some_iff
  proof (intro exI [of _ ?i] conjI allI impI)
    show "?i < length [0..<length ?xs - 1]" using i_lt by simp
    show "closes_span ?xs ([0..<length ?xs - 1] ! ?i)" using i_lt closes by simp
    show "?i = [0..<length ?xs - 1] ! ?i" using i_lt by simp
    fix j assume "j < ?i"
    then show "\<not> closes_span ?xs ([0..<length ?xs - 1] ! j)"
      using before [of j] i_lt by simp
  qed
  then show ?thesis by (simp only: first_boundary_def)
qed

lemma first_boundary_none:
  assumes pre: "\<forall>t\<in>set pre. \<not> has_ASP t" and run: "\<forall>t\<in>set run. has_ASP t"
  shows "first_boundary (pre @ run) = None"
proof -
  let ?xs = "pre @ run"
  have "\<not> closes_span ?xs j" if "j < length ?xs - 1" for j
  proof (cases "j < length pre")
    case True
    then have "?xs ! j \<in> set pre" by (simp add: nth_append)
    then have "\<not> has_ASP (?xs ! j)" using pre by blast
    then show ?thesis
      using no_ASP_not_span_tag [of "?xs ! j"] by (auto simp: closes_span_def)
  next
    case False
    then have lt: "j + 1 - length pre < length run" using that by simp
    have "?xs ! (j + 1) = run ! (j + 1 - length pre)"
      using False lt by (simp add: nth_append)
    then have "?xs ! (j + 1) \<in> set run" using lt by simp
    then have "has_ASP (?xs ! (j + 1))" using run by blast
    then show ?thesis by (simp add: closes_span_def)
  qed
  then show ?thesis
    by (simp add: first_boundary_def find_None_iff)
qed

lemma span_run:
  "''B-ASP'' # replicate n ''I-ASP'' \<noteq> []"
  "\<forall>t\<in>set (''B-ASP'' # replicate n ''I-ASP''). has_ASP t"
  "last (''B-ASP'' # replicate n ''I-ASP'') = ''B-ASP''
     \<or> last (''B-ASP'' # replicate n ''I-ASP'') = ''I-ASP''"
  by (auto simp: last_replicate)

lemma map_const_on:
  "\<forall>x\<in>set xs. f x = c \<Longrightarrow> map f xs = replicate (length xs) c"
  by (induction xs) auto

lemma zip_polarity:
  assumes "length pred_iobs \<le> length tokens"
  shows "map (\<lambda>(t, l). g l) (zip tokens pred_iobs) = map g pred_iobs"
proof -
  have "map (\<lambda>(t, l). g l) (zip tokens pred_iobs) = map g (map snd (zip tokens pred_iobs))"
    by (simp add: case_prod_unfold comp_def)
  also have "map snd (zip tokens pred_iobs) = pred_iobs"
    using assms by (simp add: map_snd_zip_take)
  finally show ?thesis .
qed

lemma count_no_ASP:
  "\<forall>t\<in>set xs. \<not> has_ASP t \<Longrightarrow> count_list xs ''B-ASP'' = 0"
  by (induction xs) auto

lemma count_span: "count_list (''B-ASP'' # replicate n ''I-ASP'') ''B-ASP'' = 1"
  by (induction n) auto

text \<open>
  C7, on the code. The tags \<^verbatim>\<open>B-ASP B-ASP O\<close> hold two aspect spans of one word each,
  side by side. The test for the end of a span asks for an aspect tag followed by a tag
  without \<^verbatim>\<open>ASP\<close>, so the first end it finds is behind the second span: the first tuple
  shows both spans, and the second shows none.
\<close>

theorem adjacent_spans_are_not_separated:
  "aspect_tuples (- 999) [''food'', ''service'', ''great''] [''B-ASP'', ''B-ASP'', ''O'']
     = [([''food'', ''service'', ''great''], [''B-ASP'', ''B-ASP'', ''O''], [999, 999, - 999]),
        ([''food'', ''service'', ''great''], [''O'', ''O'', ''O''], [- 999, - 999, - 999])]"
  by (simp add: aspect_tuples_def first_boundary_def closes_span_def has_ASP_def)

text \<open>
  Where at least one tag without \<^verbatim>\<open>ASP\<close> stands between the two spans, the loop does
  separate them. Let the predicted tags be two spans, each a \<^verbatim>\<open>B-ASP\<close> followed by any
  number of \<^verbatim>\<open>I-ASP\<close>, with tags free of \<^verbatim>\<open>ASP\<close> before, between (at least one) and
  after them, and let there be at least as many tokens as tags. Then there are exactly
  two tuples. The first keeps the tags up to the end of the first span and has \<^verbatim>\<open>O\<close>
  and the padding sentinel everywhere behind it; the second has \<^verbatim>\<open>O\<close> and the sentinel
  up to the end of the first span and behind the second span. The polarity mask is the
  negated sentinel on the visible span and the sentinel elsewhere.
\<close>

theorem two_separated_spans_give_two_tuples:
  assumes pre: "\<forall>t\<in>set pre. \<not> has_ASP t"
    and mid: "\<forall>t\<in>set mid. \<not> has_ASP t" "mid \<noteq> []"
    and post: "\<forall>t\<in>set post. \<not> has_ASP t"
    and len: "length (pre @ ''B-ASP'' # replicate n1 ''I-ASP'' @ mid
                @ ''B-ASP'' # replicate n2 ''I-ASP'' @ post) \<le> length tokens"
  shows "aspect_tuples SP tokens
           (pre @ ''B-ASP'' # replicate n1 ''I-ASP'' @ mid @ ''B-ASP'' # replicate n2 ''I-ASP'' @ post)
         = [(tokens,
             pre @ ''B-ASP'' # replicate n1 ''I-ASP''
               @ replicate (length mid + Suc n2 + length post) ''O'',
             replicate (length pre) SP @ replicate (Suc n1) (- SP)
               @ replicate (length mid + Suc n2 + length post) SP),
            (tokens,
             replicate (length pre + Suc n1) ''O'' @ mid @ ''B-ASP'' # replicate n2 ''I-ASP''
               @ replicate (length post) ''O'',
             replicate (length pre + Suc n1 + length mid) SP @ replicate (Suc n2) (- SP)
               @ replicate (length post) SP)]"
proof -
  define s1 where "s1 = ''B-ASP'' # replicate n1 ''I-ASP''"
  define s2 where "s2 = ''B-ASP'' # replicate n2 ''I-ASP''"
  define g where "g = (\<lambda>l. if has_ASP l then - SP else SP)"
  define pred where "pred = pre @ s1 @ mid @ s2 @ post"
  define N where "N = length pred"
  define K1 where "K1 = length pre + Suc n1"
  define pred' where "pred' = replicate K1 ''O'' @ mid @ s2 @ post"
  define pol where "pol = map g pred"
  define pol' where "pol' = replicate K1 SP @ map g (mid @ s2 @ post)"
  have s1: "s1 \<noteq> []" "\<forall>t\<in>set s1. has_ASP t" "last s1 = ''B-ASP'' \<or> last s1 = ''I-ASP''"
    and s2: "s2 \<noteq> []" "\<forall>t\<in>set s2. has_ASP t" "last s2 = ''B-ASP'' \<or> last s2 = ''I-ASP''"
    unfolding s1_def s2_def by (rule span_run)+
  have ls: "length s1 = Suc n1" "length s2 = Suc n2" by (simp_all add: s1_def s2_def)
  have N: "N = K1 + length mid + Suc n2 + length post"
    by (simp add: N_def pred_def K1_def ls)
  have K1: "K1 = length (pre @ s1)" by (simp add: K1_def ls)
  have K1pos: "K1 - 1 + 1 = K1" by (simp add: K1_def)
  have dropN: "drop K1 (replicate N x) = replicate (length mid + Suc n2 + length post) x"
    for x :: 'c
  proof -
    have "N - K1 = length mid + Suc n2 + length post" using N by simp
    then show ?thesis by (simp only: drop_replicate)
  qed
  have takeN: "take K1 (replicate N x) = replicate K1 x" for x :: 'c
  proof -
    have "min K1 N = K1" using N by simp
    then show ?thesis by (simp only: take_replicate)
  qed
  obtain m mid' where m: "mid = m # mid'" using mid(2) by (cases mid) auto
  have gm: "map g pre = replicate (length pre) SP" "map g mid = replicate (length mid) SP"
      "map g post = replicate (length post) SP"
    using pre mid(1) post by (simp_all add: g_def map_const_on)
  have gs: "map g s1 = replicate (Suc n1) (- SP)" "map g s2 = replicate (Suc n2) (- SP)"
    using s1(2) s2(2) ls map_const_on [of s1 g "- SP"] map_const_on [of s2 g "- SP"]
    by (simp_all add: g_def)
  \<comment> \<open>first turn\<close>
  have "first_boundary (pre @ s1 @ m # (mid' @ s2 @ post)) = Some (length pre + length s1 - 1)"
    using pre s1 mid(1) m by (intro first_boundary_at_run_end) auto
  then have fb1: "first_boundary pred = Some (K1 - 1)"
    by (simp add: pred_def m K1_def ls)
  have t1: "take K1 pred = pre @ s1" "drop K1 pred = mid @ s2 @ post"
    unfolding K1 pred_def by simp_all
  have p1: "take K1 pol = map g (pre @ s1)" "drop K1 pol = map g (mid @ s2 @ post)"
    unfolding pol_def take_map drop_map t1 by simp_all
  \<comment> \<open>second turn\<close>
  define T2 where "T2 = replicate K1 ''O'' @ mid @ s2 @ replicate (length post) ''O''"
  define P2 where "P2 = replicate (K1 + length mid) SP @ replicate (Suc n2) (- SP)
                          @ replicate (length post) SP"
  have pol'_eq: "pol' = replicate (K1 + length mid) SP @ replicate (Suc n2) (- SP)
                          @ replicate (length post) SP"
    by (simp only: pol'_def map_append gm gs replicate_add append_assoc)
  have pre': "\<forall>t\<in>set (replicate K1 ''O'' @ mid). \<not> has_ASP t"
    using mid(1) by auto
  have second: "extract_loop (Suc 0) tokens (replicate N ''O'') (replicate N SP) pred' pol'
                  = [(tokens, T2, P2)]"
  proof (cases post)
    case Nil
    have "first_boundary ((replicate K1 ''O'' @ mid) @ s2) = None"
      using pre' s2(2) by (rule first_boundary_none)
    then have fb2: "first_boundary pred' = None"
      by (simp add: pred'_def Nil)
    have tags: "pred' = T2" by (simp add: pred'_def T2_def Nil)
    have pols: "pol' = P2" by (simp only: pol'_eq P2_def)
    have "extract_loop (Suc 0) tokens (replicate N ''O'') (replicate N SP) pred' pol'
            = [(tokens, pred', pol')]"
      by (simp only: extract_loop.simps fb2 option.case)
    then show ?thesis
      by (simp only: tags pols)
  next
    case (Cons q post')
    have q: "\<not> has_ASP q" using post Cons by simp
    have "first_boundary ((replicate K1 ''O'' @ mid) @ s2 @ q # post')
            = Some (length (replicate K1 ''O'' @ mid) + length s2 - 1)"
      using pre' s2 q by (rule first_boundary_at_run_end)
    then have fb2: "first_boundary pred' = Some (K1 + length mid + n2)"
      by (simp add: pred'_def Cons ls)
    have i2: "K1 + length mid + n2 + 1 = length ((replicate K1 ''O'' @ mid) @ s2)"
      by (simp add: ls)
    have i2': "K1 + length mid + n2 + 1
                 = length (replicate (K1 + length mid) SP @ replicate (Suc n2) (- SP))"
      by simp
    have dropN2: "drop (K1 + length mid + n2 + 1) (replicate N x) = replicate (length post) x"
      for x :: 'c
    proof -
      have "N - (K1 + length mid + n2 + 1) = length post" using N by simp
      then show ?thesis by (simp only: drop_replicate)
    qed
    have "take (K1 + length mid + n2 + 1) pred' = (replicate K1 ''O'' @ mid) @ s2"
      unfolding i2 pred'_def by simp
    then have tags: "take (K1 + length mid + n2 + 1) pred'
                       @ drop (K1 + length mid + n2 + 1) (replicate N ''O'') = T2"
      by (simp only: dropN2 T2_def append_assoc)
    have "take (K1 + length mid + n2 + 1) pol'
            = replicate (K1 + length mid) SP @ replicate (Suc n2) (- SP)"
      unfolding i2' pol'_eq by simp
    then have pols: "take (K1 + length mid + n2 + 1) pol'
                       @ drop (K1 + length mid + n2 + 1) (replicate N SP) = P2"
      by (simp only: dropN2 P2_def append_assoc)
    show ?thesis
      by (simp only: extract_loop.simps fb2 option.case tags pols)
  qed
  have cnt: "count_list pred ''B-ASP'' = Suc (Suc 0)"
    using count_no_ASP [OF pre] count_no_ASP [OF mid(1)] count_no_ASP [OF post]
      count_span [of n1] count_span [of n2]
    by (simp add: pred_def s1_def s2_def)
  have polarity: "map (\<lambda>(t, l). if has_ASP l then - SP else SP) (zip tokens pred) = pol"
    using len zip_polarity [of pred tokens g]
    by (simp add: pol_def g_def pred_def s1_def s2_def)
  have first_tags: "take (K1 - 1 + 1) pred @ drop (K1 - 1 + 1) (replicate N ''O'')
      = pre @ s1 @ replicate (length mid + Suc n2 + length post) ''O''"
    by (simp only: K1pos t1 dropN append_assoc)
  have "map g (pre @ s1) = replicate (length pre) SP @ replicate (Suc n1) (- SP)"
    by (simp only: map_append gm gs)
  then have first_pol: "take (K1 - 1 + 1) pol @ drop (K1 - 1 + 1) (replicate N SP)
      = replicate (length pre) SP @ replicate (Suc n1) (- SP)
          @ replicate (length mid + Suc n2 + length post) SP"
    by (simp only: K1pos p1 dropN append_assoc)
  have next_tags: "take (K1 - 1 + 1) (replicate N ''O'') @ drop (K1 - 1 + 1) pred = pred'"
    by (simp only: K1pos t1 takeN pred'_def)
  have next_pol: "take (K1 - 1 + 1) (replicate N SP) @ drop (K1 - 1 + 1) pol = pol'"
    by (simp only: K1pos p1 takeN pol'_def)
  have "aspect_tuples SP tokens pred
      = extract_loop (Suc (Suc 0)) tokens (replicate N ''O'') (replicate N SP) pred pol"
    by (simp add: aspect_tuples_def Let_def cnt polarity N_def)
  also have "\<dots> = (tokens, pre @ s1 @ replicate (length mid + Suc n2 + length post) ''O'',
              replicate (length pre) SP @ replicate (Suc n1) (- SP)
                @ replicate (length mid + Suc n2 + length post) SP)
            # extract_loop (Suc 0) tokens (replicate N ''O'') (replicate N SP) pred' pol'"
    by (simp only: extract_loop.simps(2) [of "Suc 0"] fb1 option.case first_tags first_pol
        next_tags next_pol)
  also have "\<dots> = [(tokens, pre @ s1 @ replicate (length mid + Suc n2 + length post) ''O'',
              replicate (length pre) SP @ replicate (Suc n1) (- SP)
                @ replicate (length mid + Suc n2 + length post) SP),
            (tokens, T2, P2)]"
    by (simp only: second)
  finally show ?thesis
    by (simp only: pred_def s1_def s2_def K1_def T2_def P2_def append_Cons append_Nil append_assoc)
qed

theorem two_separated_spans_give_two_tuples_witness:
  "aspect_tuples (- 999) [''the'', ''battery'', ''life'', ''and'', ''screen'', ''rock'']
     [''O'', ''B-ASP'', ''I-ASP'', ''O'', ''B-ASP'', ''O'']
   = [([''the'', ''battery'', ''life'', ''and'', ''screen'', ''rock''],
       [''O'', ''B-ASP'', ''I-ASP'', ''O'', ''O'', ''O''],
       [- 999, 999, 999, - 999, - 999, - 999]),
      ([''the'', ''battery'', ''life'', ''and'', ''screen'', ''rock''],
       [''O'', ''O'', ''O'', ''O'', ''B-ASP'', ''O''],
       [- 999, - 999, - 999, - 999, 999, - 999])]"
  using two_separated_spans_give_two_tuples
    [where pre = "[''O'']" and mid = "[''O'']" and post = "[''O'']" and ?n1.0 = 1 and ?n2.0 = 0
       and tokens = "[''the'', ''battery'', ''life'', ''and'', ''screen'', ''rock'']"
       and SP = "- 999"]
  by (simp add: numeral_2_eq_2 numeral_3_eq_3)

end
